theory Spec2Isabelle
  imports Main
begin

section \<open>Decimal numbers\<close>

text \<open>
  The program computes with the decimal numbers of Python's \<^verbatim>\<open>decimal\<close> module. A finite
  decimal is a sign, a coefficient and an exponent, and stands for
  \<open>(-1)^sign * coefficient * 10^exponent\<close>; \<open>NaN\<close> is the quiet not-a-number value that the
  program uses as the sentinel of an unset field.

  Scope of the model. The ambient context is represented by its precision, the first argument of
  every operation that reads it; rounding is half-even, as in the default context. The
  exponent range of the context (\<open>10^\<plusminus>999999\<close> by default) is not modelled: exponents are
  unbounded integers. Infinities and signalling NaNs, which the library also has, are outside
  the model, as are the sign and payload of a NaN: the decimal values of the specification are
  the finite numbers and the not-a-number sentinel.
\<close>

datatype decimal = Fin bool nat int | NaN

datatype error =
    InvalidInput        \<comment> \<open>\<^verbatim>\<open>ValueError("Cannot create symmetry lines for <3 points")\<close>\<close>
  | InvalidPrecision    \<comment> \<open>\<^verbatim>\<open>ValueError\<close> of the context: precision outside its valid range\<close>
  | DivisionByZero      \<comment> \<open>\<^verbatim>\<open>decimal.DivisionByZero\<close>, trapped by default\<close>
  | InvalidOperation    \<comment> \<open>\<^verbatim>\<open>decimal.InvalidOperation\<close>, trapped by default\<close>
  | ZeroDivisionError   \<comment> \<open>division of the integer 0 by the integer 0\<close>

definition and_then :: "error + 'a \<Rightarrow> ('a \<Rightarrow> error + 'b) \<Rightarrow> error + 'b" where
  "and_then m f = (case m of Inl e \<Rightarrow> Inl e | Inr v \<Rightarrow> f v)"

definition is_nan :: "decimal \<Rightarrow> bool" where
  "is_nan d = (case d of NaN \<Rightarrow> True | Fin s c e \<Rightarrow> False)"

text \<open>The number of decimal digits of a coefficient (\<^verbatim>\<open>len(str(n))\<close>).\<close>

fun ndigits :: "nat \<Rightarrow> nat" where
  "ndigits n = (if n < 10 then 1 else Suc (ndigits (n div 10)))"

declare ndigits.simps [simp del]

text \<open>
  The coefficient \<open>c\<close> without its last \<open>k\<close> digits, rounded half-even on the digits
  dropped.
\<close>

definition round_half_even :: "nat \<Rightarrow> nat \<Rightarrow> nat" where
  "round_half_even c k =
     (let q = c div 10 ^ k; r = c mod 10 ^ k; h = 5 * 10 ^ (k - 1)
      in if h < r \<or> (r = h \<and> odd q) then q + 1 else q)"

text \<open>
  Rounding a result to the precision of the context (the library's \<^verbatim>\<open>_fix\<close>): a
  coefficient of more than \<open>P\<close> digits is cut to \<open>P\<close> digits; when rounding up carries into
  a further digit, the last digit is dropped again.
\<close>

definition dec_fix :: "nat \<Rightarrow> decimal \<Rightarrow> decimal" where
  "dec_fix P d =
     (case d of
        NaN \<Rightarrow> NaN
      | Fin s c e \<Rightarrow>
          if c = 0 \<or> ndigits c \<le> P then Fin s c e
          else
            (let k = ndigits c - P; q = round_half_even c k
             in if P < ndigits q then Fin s (q div 10) (e + int k + 1)
                else Fin s q (e + int k)))"

definition signed :: "bool \<Rightarrow> nat \<Rightarrow> int" where
  "signed s c = (if s then - int c else int c)"

definition dec_neg :: "decimal \<Rightarrow> decimal" where
  "dec_neg d = (case d of NaN \<Rightarrow> NaN | Fin s c e \<Rightarrow> Fin (\<not> s) c e)"

text \<open>
  Addition: the operands are aligned to the smaller exponent, added exactly, and the sum is
  rounded. A zero sum is negative only when both operands are negative zeros.
\<close>

definition dec_add :: "nat \<Rightarrow> decimal \<Rightarrow> decimal \<Rightarrow> decimal" where
  "dec_add P a b =
     (case a of
        NaN \<Rightarrow> NaN
      | Fin s1 c1 e1 \<Rightarrow>
          (case b of
             NaN \<Rightarrow> NaN
           | Fin s2 c2 e2 \<Rightarrow>
               (let e = min e1 e2;
                    v = signed s1 (c1 * 10 ^ nat (e1 - e)) + signed s2 (c2 * 10 ^ nat (e2 - e))
                in if v = 0 then dec_fix P (Fin (c1 = 0 \<and> c2 = 0 \<and> s1 \<and> s2) 0 e)
                   else dec_fix P (Fin (v < 0) (nat \<bar>v\<bar>) e))))"

definition dec_sub :: "nat \<Rightarrow> decimal \<Rightarrow> decimal \<Rightarrow> decimal" where
  "dec_sub P a b = dec_add P a (dec_neg b)"

definition dec_mul :: "nat \<Rightarrow> decimal \<Rightarrow> decimal \<Rightarrow> decimal" where
  "dec_mul P a b =
     (case a of
        NaN \<Rightarrow> NaN
      | Fin s1 c1 e1 \<Rightarrow>
          (case b of
             NaN \<Rightarrow> NaN
           | Fin s2 c2 e2 \<Rightarrow> dec_fix P (Fin (s1 \<noteq> s2) (c1 * c2) (e1 + e2))))"

text \<open>
  An exact quotient is brought as close to the ideal exponent as its trailing zeros allow.
\<close>

function strip_ideal :: "nat \<Rightarrow> int \<Rightarrow> int \<Rightarrow> nat \<times> int" where
  "strip_ideal c e ideal =
     (if e < ideal \<and> c mod 10 = 0 then strip_ideal (c div 10) (e + 1) ideal else (c, e))"
  by pat_completeness auto
termination
  by (relation "measure (\<lambda>(c, e, ideal). nat (ideal - e))") auto

declare strip_ideal.simps [simp del]

text \<open>
  Division: a quotient of \<open>P + 1\<close> or \<open>P + 2\<close> digits is computed; a remainder makes its last
  digit sticky before the rounding. Dividing by zero raises.
\<close>

definition dec_div :: "nat \<Rightarrow> decimal \<Rightarrow> decimal \<Rightarrow> error + decimal" where
  "dec_div P a b =
     (case a of
        NaN \<Rightarrow> Inr NaN
      | Fin s1 c1 e1 \<Rightarrow>
          (case b of
             NaN \<Rightarrow> Inr NaN
           | Fin s2 c2 e2 \<Rightarrow>
               if c2 = 0 then (if c1 = 0 then Inl InvalidOperation else Inl DivisionByZero)
               else if c1 = 0 then Inr (dec_fix P (Fin (s1 \<noteq> s2) 0 (e1 - e2)))
               else
                 (let shift = int (ndigits c2) - int (ndigits c1) + int P + 1;
                      e = e1 - e2 - shift;
                      n = (if 0 \<le> shift then c1 * 10 ^ nat shift else c1);
                      m = (if 0 \<le> shift then c2 else c2 * 10 ^ nat (- shift));
                      q = n div m;
                      r = n mod m
                  in if r \<noteq> 0
                     then Inr (dec_fix P (Fin (s1 \<noteq> s2) (if q mod 5 = 0 then q + 1 else q) e))
                     else (case strip_ideal q e (e1 - e2) of
                             (q', e') \<Rightarrow> Inr (dec_fix P (Fin (s1 \<noteq> s2) q' e'))))))"

text \<open>
  Comparison \<^verbatim>\<open>==\<close> is numerical: equal values at different exponents are equal, the two
  zeros are equal, and a NaN equals nothing.
\<close>

definition dec_eq :: "decimal \<Rightarrow> decimal \<Rightarrow> bool" where
  "dec_eq a b =
     (case a of
        NaN \<Rightarrow> False
      | Fin s1 c1 e1 \<Rightarrow>
          (case b of
             NaN \<Rightarrow> False
           | Fin s2 c2 e2 \<Rightarrow>
               (let e = min e1 e2
                in signed s1 (c1 * 10 ^ nat (e1 - e)) = signed s2 (c2 * 10 ^ nat (e2 - e)))))"

definition dec_of_nat :: "nat \<Rightarrow> decimal" where
  "dec_of_nat n = Fin False n 0"

section \<open>Normalisation\<close>

text \<open>Removing the trailing zeros of a non-zero coefficient.\<close>

function strip_zeros :: "nat \<Rightarrow> int \<Rightarrow> nat \<times> int" where
  "strip_zeros c e =
     (if c \<noteq> 0 \<and> c mod 10 = 0 then strip_zeros (c div 10) (e + 1) else (c, e))"
  by pat_completeness auto
termination
  by (relation "measure (\<lambda>(c, e). c)") auto

declare strip_zeros.simps [simp del]

text \<open>
  \<^verbatim>\<open>normalize(d)\<close> of the program: the library's \<^verbatim>\<open>Decimal.normalize\<close> under a context
  whose precision is one less than the ambient precision. Setting that precision fails when
  it is not positive. The library rounds to the precision, turns every zero into the zero of
  exponent 0, and strips the trailing zeros of any other coefficient.
\<close>

definition normalize_decimal :: "nat \<Rightarrow> decimal \<Rightarrow> error + decimal" where
  "normalize_decimal prec d =
     (if prec - 1 < 1 then Inl InvalidPrecision
      else
        (case dec_fix (prec - 1) d of
           NaN \<Rightarrow> Inr NaN
         | Fin s c e \<Rightarrow>
             if c = 0 then Inr (Fin s 0 0)
             else (case strip_zeros c e of (c', e') \<Rightarrow> Inr (Fin s c' e'))))"

section \<open>Hashing\<close>

text \<open>
  The hash of a finite decimal is the interpreter's hash of its numerical value, computed
  modulo the prime \<open>2^61 - 1\<close>. The hash of a NaN object is derived from the identity of the
  object and the hash of the string \<^verbatim>\<open>"nan"\<close> from the seed of the process: both are
  values of the run and are given by the environment \<open>H\<close>.
\<close>

record hash_env =
  nan_object_hash :: int
  nan_string_hash :: int

definition hash_modulus :: nat where
  "hash_modulus = 2 ^ 61 - 1"

definition hash_10inv :: nat where
  "hash_10inv = 2075258708292324556"

definition dec_hash :: "hash_env \<Rightarrow> decimal \<Rightarrow> int" where
  "dec_hash H d =
     (case d of
        NaN \<Rightarrow> nan_object_hash H
      | Fin s c e \<Rightarrow>
          (let exp_hash = (if 0 \<le> e then 10 ^ nat e mod hash_modulus
                           else hash_10inv ^ nat (- e) mod hash_modulus);
               h = int (c * exp_hash mod hash_modulus);
               ans = (if s \<and> c \<noteq> 0 then - h else h)
           in if ans = - 1 then - 2 else ans))"

text \<open>The hash of a tuple, from the hashes of its items, on 64-bit unsigned integers.\<close>

definition xxprime_1 :: nat where
  "xxprime_1 = 11400714785074694791"

definition xxprime_2 :: nat where
  "xxprime_2 = 14029467366897019727"

definition xxprime_5 :: nat where
  "xxprime_5 = 2870177450012600261"

definition xxrotate :: "nat \<Rightarrow> nat" where
  "xxrotate v = (v * 2 ^ 31 + v div 2 ^ 33) mod 2 ^ 64"

fun tuple_lanes :: "nat \<Rightarrow> int list \<Rightarrow> nat" where
  "tuple_lanes acc [] = acc"
| "tuple_lanes acc (h # hs) =
     tuple_lanes
       ((xxrotate ((acc + nat (h mod 2 ^ 64) * xxprime_2) mod 2 ^ 64) * xxprime_1) mod 2 ^ 64) hs"

definition tuple_hash :: "int list \<Rightarrow> int" where
  "tuple_hash hs =
     (let acc = (tuple_lanes xxprime_5 hs + xor (length hs) (xor xxprime_5 3527539)) mod 2 ^ 64
      in if acc = 2 ^ 64 - 1 then 1546275796
         else if 2 ^ 63 \<le> acc then int acc - 2 ^ 64 else int acc)"

section \<open>Points\<close>

record point =
  point_x :: decimal
  point_y :: decimal

definition Point :: "decimal \<Rightarrow> decimal \<Rightarrow> point" where
  "Point a b = \<lparr>point_x = a, point_y = b\<rparr>"

text \<open>\<^verbatim>\<open>Point.__eq__\<close>: the second comparison is made only when the first holds.\<close>

definition point_eq :: "nat \<Rightarrow> point \<Rightarrow> point \<Rightarrow> error + bool" where
  "point_eq P a b =
     and_then (normalize_decimal P (point_x a)) (\<lambda>ax.
     and_then (normalize_decimal P (point_x b)) (\<lambda>bx.
       if dec_eq ax bx
       then and_then (normalize_decimal P (point_y a)) (\<lambda>ay.
            and_then (normalize_decimal P (point_y b)) (\<lambda>by. Inr (dec_eq ay by)))
       else Inr False))"


section \<open>Lines\<close>

record line =
  slope :: decimal
  intercept :: decimal
  line_x :: decimal

definition Line :: "decimal \<Rightarrow> decimal \<Rightarrow> decimal \<Rightarrow> line" where
  "Line s i a = \<lparr>slope = s, intercept = i, line_x = a\<rparr>"

definition is_vertical :: "line \<Rightarrow> bool" where
  "is_vertical l = (is_nan (slope l) \<or> is_nan (intercept l))"

definition is_horizontal :: "line \<Rightarrow> bool" where
  "is_horizontal l = dec_eq (slope l) (dec_of_nat 0)"

definition line_eq :: "nat \<Rightarrow> line \<Rightarrow> line \<Rightarrow> error + bool" where
  "line_eq P a b =
     (if is_vertical a \<and> is_vertical b
      then (if is_nan (line_x a) then Inr False
            else and_then (normalize_decimal P (line_x a)) (\<lambda>ax.
                 and_then (normalize_decimal P (line_x b)) (\<lambda>bx. Inr (dec_eq ax bx))))
      else and_then (normalize_decimal P (slope a)) (\<lambda>sa.
           and_then (normalize_decimal P (slope b)) (\<lambda>sb.
             if dec_eq sa sb
             then and_then (normalize_decimal P (intercept a)) (\<lambda>ia.
                  and_then (normalize_decimal P (intercept b)) (\<lambda>ib. Inr (dec_eq ia ib)))
             else Inr False)))"

text \<open>
  In \<^verbatim>\<open>Line.__hash__\<close> a field that is NaN is replaced by the string \<^verbatim>\<open>"nan"\<close>, any
  other field by its normalised value.
\<close>

definition field_hash :: "hash_env \<Rightarrow> nat \<Rightarrow> decimal \<Rightarrow> error + int" where
  "field_hash H P d =
     (if is_nan d then Inr (nan_string_hash H)
      else and_then (normalize_decimal P d) (\<lambda>n. Inr (dec_hash H n)))"

definition line_hash :: "hash_env \<Rightarrow> nat \<Rightarrow> line \<Rightarrow> error + int" where
  "line_hash H P l =
     and_then (field_hash H P (slope l)) (\<lambda>s.
     and_then (field_hash H P (intercept l)) (\<lambda>i.
     and_then (field_hash H P (line_x l)) (\<lambda>a. Inr (tuple_hash [s, i, a]))))"

text \<open>
  The debug messages of the program format points and lines through \<^verbatim>\<open>normalize\<close> before
  the logger sees them, whatever the log level. Their text is not modelled; the failure of the
  normalisation is.
\<close>

definition format_point :: "nat \<Rightarrow> point \<Rightarrow> error + unit" where
  "format_point P p =
     and_then (normalize_decimal P (point_x p)) (\<lambda>a.
     and_then (normalize_decimal P (point_y p)) (\<lambda>b. Inr ()))"

definition format_line :: "nat \<Rightarrow> line \<Rightarrow> error + unit" where
  "format_line P l =
     (if is_vertical l then and_then (normalize_decimal P (line_x l)) (\<lambda>a. Inr ())
      else and_then (normalize_decimal P (slope l)) (\<lambda>a.
           and_then (normalize_decimal P (intercept l)) (\<lambda>b. Inr ())))"

definition from_points :: "nat \<Rightarrow> point \<Rightarrow> point \<Rightarrow> error + line" where
  "from_points P p0 p1 =
     (let den = dec_sub P (point_x p1) (point_x p0)
      in if \<not> dec_eq den (dec_of_nat 0)
         then and_then (dec_div P (dec_sub P (point_y p1) (point_y p0)) den) (\<lambda>s.
                Inr (Line s (dec_sub P (point_y p1) (dec_mul P s (point_x p1))) NaN))
         else Inr (Line NaN NaN (point_x p1)))"

definition contains_point :: "nat \<Rightarrow> line \<Rightarrow> point \<Rightarrow> bool" where
  "contains_point P l p0 =
     dec_eq (point_y p0) (dec_add P (dec_mul P (point_x p0) (slope l)) (intercept l))"

definition perpendicular_intersection_point :: "nat \<Rightarrow> line \<Rightarrow> point \<Rightarrow> error + point" where
  "perpendicular_intersection_point P l p0 =
     (if is_vertical l then Inr (Point (line_x l) (point_y p0))
      else if is_horizontal l then Inr (Point (point_x p0) (intercept l))
      else
        and_then
          (dec_div P (slope l) (dec_add P (dec_mul P (slope l) (slope l)) (dec_of_nat 1))) (\<lambda>k.
        and_then (dec_div P (point_x p0) (slope l)) (\<lambda>t.
          (let a = dec_mul P k (dec_sub P (dec_add P (point_y p0) t) (intercept l));
               b = dec_add P (dec_mul P (slope l) a) (intercept l)
           in Inr (Point a b)))))"

definition folded_point :: "nat \<Rightarrow> line \<Rightarrow> point \<Rightarrow> error + point" where
  "folded_point P l p0 =
     (if contains_point P l p0 then Inr p0
      else and_then (perpendicular_intersection_point P l p0) (\<lambda>p_int.
             Inr (Point (dec_sub P (dec_mul P (dec_of_nat 2) (point_x p_int)) (point_x p0))
                        (dec_sub P (dec_mul P (dec_of_nat 2) (point_y p_int)) (point_y p0)))))"

text \<open>
  \<^verbatim>\<open>is_symmetry_line\<close>. The inner loop looks for a point equal to the folded point and
  stops at the first one; the outer loop returns false at the first point whose folded point
  is matched by nothing.
\<close>

fun match_loop :: "nat \<Rightarrow> point \<Rightarrow> point list \<Rightarrow> error + bool" where
  "match_loop P f1 [] = Inr False"
| "match_loop P f1 (q # qs) =
     and_then (point_eq P q f1) (\<lambda>same. if same then Inr True else match_loop P f1 qs)"

fun symmetry_loop :: "nat \<Rightarrow> line \<Rightarrow> point list \<Rightarrow> point list \<Rightarrow> error + bool" where
  "symmetry_loop P l points [] = Inr True"
| "symmetry_loop P l points (p # ps) =
     and_then (folded_point P l p) (\<lambda>f1.
     and_then (point_eq P f1 p) (\<lambda>same.
       if same then symmetry_loop P l points ps
       else and_then (match_loop P f1 points) (\<lambda>matched.
              if matched then symmetry_loop P l points ps else Inr False)))"

definition is_symmetry_line :: "nat \<Rightarrow> line \<Rightarrow> point list \<Rightarrow> error + bool" where
  "is_symmetry_line P l points =
     and_then (format_line P l) (\<lambda>u. symmetry_loop P l points points)"

section \<open>Bisection points\<close>

text \<open>The parents kept by a \<^verbatim>\<open>BisectionPoint\<close> are used for printing only.\<close>

definition BisectionPoint :: "nat \<Rightarrow> point \<Rightarrow> point \<Rightarrow> error + point" where
  "BisectionPoint P p0 p1 =
     and_then (dec_div P (dec_sub P (point_x p1) (point_x p0)) (Fin False 20 (- 1))) (\<lambda>a.
     and_then (dec_div P (dec_sub P (point_y p1) (point_y p0)) (Fin False 20 (- 1))) (\<lambda>b.
       Inr (Point (dec_add P a (point_x p0)) (dec_add P b (point_y p0)))))"

section \<open>The symmetry line finder\<close>



fun line_scan :: "hash_env \<Rightarrow> nat \<Rightarrow> int \<Rightarrow> line \<Rightarrow> line list \<Rightarrow> error + bool" where
  "line_scan H P h l [] = Inr False"
| "line_scan H P h l (v # vs) =
     and_then (line_hash H P v) (\<lambda>hv.
       if hv = h
       then and_then (line_eq P v l) (\<lambda>same. if same then Inr True else line_scan H P h l vs)
       else line_scan H P h l vs)"

definition line_member :: "hash_env \<Rightarrow> nat \<Rightarrow> line \<Rightarrow> line list \<Rightarrow> error + bool" where
  "line_member H P l visited = and_then (line_hash H P l) (\<lambda>h. line_scan H P h l visited)"



text \<open>
  \<^verbatim>\<open>sum\<close> starts from the integer 0, to which the first decimal is added from the right.
\<close>

definition py_sum :: "nat \<Rightarrow> decimal list \<Rightarrow> decimal" where
  "py_sum P ds =
     (case ds of
        [] \<Rightarrow> dec_of_nat 0
      | d # ds' \<Rightarrow> foldl (dec_add P) (dec_add P d (dec_of_nat 0)) ds')"

definition centroid :: "nat \<Rightarrow> point list \<Rightarrow> error + point" where
  "centroid P points =
     (if points = [] then Inl ZeroDivisionError
      else
        and_then (dec_div P (py_sum P (map point_x points)) (dec_of_nat (length points))) (\<lambda>a.
        and_then (dec_div P (py_sum P (map point_y points)) (dec_of_nat (length points))) (\<lambda>b.
          Inr (Point a b))))"

text \<open>The pairs \<open>(points[i0], points[i1])\<close> with \<open>i0 < i1\<close>, in the order of the two loops.\<close>

fun index_pairs :: "'a list \<Rightarrow> ('a \<times> 'a) list" where
  "index_pairs [] = []"
| "index_pairs (p # ps) = map (Pair p) ps @ index_pairs ps"

text \<open>
  One loop serves both loops of \<^verbatim>\<open>_candidate_symmetry_lines\<close>: each target, a bisection
  point or a vertex, gives the line from the centroid to it, which is emitted and added to
  \<^verbatim>\<open>visited\<close> unless it is found there. The lines emitted are the elements of
  \<^verbatim>\<open>visited\<close>, in the order of insertion.
\<close>

fun candidate_loop ::
  "hash_env \<Rightarrow> nat \<Rightarrow> point \<Rightarrow> line list \<Rightarrow> (error + point) list \<Rightarrow> error + line list" where
  "candidate_loop H P cent visited [] = Inr visited"
| "candidate_loop H P cent visited (t # ts) =
     and_then t (\<lambda>b.
     and_then (from_points P cent b) (\<lambda>line1.
     and_then (line_member H P line1 visited) (\<lambda>seen.
       candidate_loop H P cent (if seen then visited else visited @ [line1]) ts)))"

definition bisection_target :: "nat \<Rightarrow> point \<times> point \<Rightarrow> error + point" where
  "bisection_target P pq =
     and_then (BisectionPoint P (fst pq) (snd pq)) (\<lambda>b.
     and_then (format_point P b) (\<lambda>u. Inr b))"

definition candidate_symmetry_lines :: "hash_env \<Rightarrow> nat \<Rightarrow> point list \<Rightarrow> error + line list" where
  "candidate_symmetry_lines H P points =
     (if length points < 3 then Inr []
      else and_then (centroid P points) (\<lambda>cent.
             candidate_loop H P cent []
               (map (bisection_target P) (index_pairs points) @ map Inr points)))"

fun tag_lines :: "nat \<Rightarrow> point list \<Rightarrow> line list \<Rightarrow> error + (bool \<times> line) list" where
  "tag_lines P points [] = Inr []"
| "tag_lines P points (l # ls) =
     and_then (is_symmetry_line P l points) (\<lambda>b.
     and_then (tag_lines P points ls) (\<lambda>rest. Inr ((b, l) # rest)))"

definition find_all :: "hash_env \<Rightarrow> nat \<Rightarrow> point list \<Rightarrow> error + (bool \<times> line) list" where
  "find_all H P points = and_then (candidate_symmetry_lines H P points) (tag_lines P points)"

definition find_lines :: "hash_env \<Rightarrow> nat \<Rightarrow> point list \<Rightarrow> error + line list" where
  "find_lines H P points =
     and_then (find_all H P points) (\<lambda>tagged. Inr (map snd (filter fst tagged)))"

section \<open>Canonical forms\<close>


definition dec_key :: "decimal \<Rightarrow> (bool \<times> nat \<times> int) option" where
  "dec_key d = (case d of NaN \<Rightarrow> None | Fin s c e \<Rightarrow> Some (s \<and> c \<noteq> 0, c, e))"

text \<open>
  The key of the normalised value of a number at precision \<open>P\<close>; there is none when the
  normalisation fails or gives NaN.
\<close>

definition norm_key :: "nat \<Rightarrow> decimal \<Rightarrow> (bool \<times> nat \<times> int) option" where
  "norm_key P d = (case normalize_decimal P d of Inl e \<Rightarrow> None | Inr v \<Rightarrow> dec_key v)"

section \<open>Properties of the decimal operations\<close>




lemma dec_mul_NaN_left: "dec_mul P NaN b = NaN"
  by (simp add: dec_mul_def)


lemma dec_eq_NaN_left: "dec_eq NaN b = False"
  by (simp add: dec_eq_def)


section \<open>Containment\<close>




section \<open>Digits, rounding and normalisation\<close>

lemma ndigits_pos: "0 < ndigits n"
  by (subst ndigits.simps) simp
lemma ndigits_le_iff: "0 < m \<Longrightarrow> ndigits n \<le> m \<longleftrightarrow> n < 10 ^ m"
proof (induction n arbitrary: m rule: ndigits.induct)
  case (1 n)
  show ?case
  proof (cases "n < 10")
    case True
    have "(10::nat) ^ 1 \<le> 10 ^ m" using 1(2) by (intro power_increasing) auto
    with True 1(2) show ?thesis by (subst ndigits.simps) auto
  next
    case False
    show ?thesis
    proof (cases m)
      case 0 with 1(2) show ?thesis by simp
    next
      case (Suc k)
      show ?thesis
      proof (cases "k = 0")
        case True
        with False Suc show ?thesis by (subst ndigits.simps) (use ndigits_pos[of "n div 10"] in auto)
      next
        case k: False
        have "ndigits (n div 10) \<le> k \<longleftrightarrow> n div 10 < 10 ^ k" using 1(1)[OF False, of k] k by simp
        moreover have "n div 10 < 10 ^ k \<longleftrightarrow> n < 10 ^ Suc k"
          by (simp add: less_mult_imp_div_less div_less_iff_less_mult mult.commute)
        ultimately show ?thesis using False Suc by (subst ndigits.simps) simp
      qed
    qed
  qed
qed
lemma ndigits_bound: "n < 10 ^ ndigits n"
  using ndigits_le_iff[OF ndigits_pos, of n n] by simp
lemma ndigits_lower: "n \<noteq> 0 \<Longrightarrow> 10 ^ (ndigits n - 1) \<le> n"
proof (rule ccontr)
  assume n: "n \<noteq> 0" and "\<not> 10 ^ (ndigits n - 1) \<le> n"
  then have lt: "n < 10 ^ (ndigits n - 1)" by simp
  show False
  proof (cases "ndigits n - 1 = 0")
    case True with lt n show False by simp
  next
    case False
    then have "ndigits n \<le> ndigits n - 1" using ndigits_le_iff[of "ndigits n - 1" n] lt by simp
    with False show False by simp
  qed
qed

lemma round_half_even_cases:
  "round_half_even c k = c div 10 ^ k \<or> round_half_even c k = c div 10 ^ k + 1"
  by (simp add: round_half_even_def Let_def)

lemma dec_fix_digits:
  assumes Q: "0 < Q" and fx: "dec_fix Q (Fin s c e) = Fin s' c' e'" and c: "c \<noteq> 0"
  shows "s' = s \<and> c' \<noteq> 0 \<and> c' < 10 ^ Q"
proof (cases "ndigits c \<le> Q")
  case True
  with fx have "c' = c" "s' = s" by (simp_all add: dec_fix_def)
  with True c Q show ?thesis by (simp add: ndigits_le_iff)
next
  case False
  define k where "k = ndigits c - Q"
  define q where "q = round_half_even c k"
  have k: "0 < k" "ndigits c = Q + k" using False by (simp_all add: k_def)
  have "c < 10 ^ (Q + k)" using ndigits_bound[of c] k by simp
  then have "c < 10 ^ Q * 10 ^ k" by (simp add: power_add)
  then have q0_hi: "c div 10 ^ k < 10 ^ Q"
    by (simp add: less_mult_imp_div_less)
  have "10 ^ (Q + k - 1) \<le> c" using ndigits_lower[OF c] k by simp
  moreover have "(10::nat) ^ (Q + k - 1) = 10 ^ (Q - 1) * 10 ^ k"
    using Q by (simp add: power_add [symmetric])
  ultimately have "10 ^ (Q - 1) * 10 ^ k \<le> c" by simp
  then have "10 ^ (Q - 1) \<le> c div 10 ^ k"
    by (simp add: less_eq_div_iff_mult_less_eq)
  then have q0_lo: "0 < c div 10 ^ k"
    by (metis gr0I not_one_le_zero one_le_numeral one_le_power order.trans)
  from round_half_even_cases[of c k] q0_hi q0_lo have q: "0 < q" "q \<le> 10 ^ Q"
    by (auto simp: q_def)
  show ?thesis
  proof (cases "Q < ndigits q")
    case True
    with fx False c have r: "c' = q div 10" "s' = s"
      by (simp_all add: dec_fix_def Let_def k_def q_def)
    from True Q have "\<not> ndigits q \<le> 1" by simp
    then have "10 \<le> q" using ndigits_le_iff[of 1 q] by simp
    then have "0 < q div 10" by (simp add: div_greater_zero_iff)
    moreover have "q div 10 < 10 ^ Q"
    proof -
      have "q div 10 \<le> 10 ^ Q div 10" using q(2) by (rule div_le_mono)
      also have "\<dots> < 10 ^ Q" by (simp add: Q)
      finally show ?thesis .
    qed
    ultimately show ?thesis using r by simp
  next
    case nd: False
    with fx False c have r: "c' = q" "s' = s"
      by (simp_all add: dec_fix_def Let_def k_def q_def)
    from nd have "ndigits q \<le> Q" by simp
    then have "q < 10 ^ Q" using ndigits_le_iff[OF Q] by simp
    with q r show ?thesis by simp
  qed
qed

lemma dec_fix_small: "c < 10 ^ Q \<Longrightarrow> 0 < Q \<Longrightarrow> dec_fix Q (Fin s c e) = Fin s c e"
  by (simp add: dec_fix_def ndigits_le_iff)

lemma strip_zeros_props:
  "strip_zeros c e = (c', e') \<Longrightarrow> c \<noteq> 0 \<Longrightarrow> c' \<noteq> 0 \<and> c' mod 10 \<noteq> 0 \<and> c' \<le> c"
proof (induction c e rule: strip_zeros.induct)
  case (1 c e)
  show ?case
  proof (cases "c mod 10 = 0")
    case True
    with 1(3) have nz: "c div 10 \<noteq> 0" by auto
    from True 1(2,3) have "strip_zeros (c div 10) (e + 1) = (c', e')"
      by (subst (asm) strip_zeros.simps) simp
    with 1(1)[OF _ _ nz] True 1(3) have "c' \<noteq> 0 \<and> c' mod 10 \<noteq> 0 \<and> c' \<le> c div 10" by simp
    then show ?thesis by (meson div_le_dividend order.trans)
  next
    case False
    with 1(2) have "c' = c" by (subst (asm) strip_zeros.simps) simp
    with False 1(3) show ?thesis by simp
  qed
qed

lemma strip_zeros_fixed: "c mod 10 \<noteq> 0 \<Longrightarrow> strip_zeros c e = (c, e)"
  by (subst strip_zeros.simps) simp

text \<open>
  Claim C9. Normalising is idempotent: a value returned by \<^verbatim>\<open>normalize\<close> under the precision
  \<open>P\<close> is returned unchanged, with the same sign, coefficient and exponent, when it is
  normalised again under \<open>P\<close>. (At a precision below 2 \<^verbatim>\<open>normalize\<close> returns nothing: it
  raises.)
\<close>

theorem normalize_decimal_idempotent:
  "normalize_decimal P d = Inr v \<Longrightarrow> normalize_decimal P v = Inr v"
proof -
  assume n: "normalize_decimal P d = Inr v"
  then have P: "\<not> P - 1 < 1" by (auto simp: normalize_decimal_def split: if_splits)
  then have Q: "0 < P - 1" by simp
  show ?thesis
  proof (cases d)
    case NaN
    with n P have "v = NaN" by (simp add: normalize_decimal_def dec_fix_def)
    with P show ?thesis by (simp add: normalize_decimal_def dec_fix_def)
  next
    case (Fin s c e)
    obtain s1 c1 e1 where fx: "dec_fix (P - 1) (Fin s c e) = Fin s1 c1 e1"
      by (cases "dec_fix (P - 1) (Fin s c e)") (auto simp: dec_fix_def Let_def split: if_splits)
    show ?thesis
    proof (cases "c1 = 0")
      case True
      with n P Fin fx have "v = Fin s1 0 0" by (simp add: normalize_decimal_def)
      with P show ?thesis by (simp add: normalize_decimal_def dec_fix_def)
    next
      case False
      obtain c2 e2 where st: "strip_zeros c1 e1 = (c2, e2)" by (cases "strip_zeros c1 e1")
      with n P Fin fx False have v: "v = Fin s1 c2 e2" by (simp add: normalize_decimal_def)
      have "c \<noteq> 0" using fx False by (auto simp: dec_fix_def split: if_splits)
      from dec_fix_digits[OF Q fx this] have c1: "c1 < 10 ^ (P - 1)" by simp
      from strip_zeros_props[OF st False] have c2: "c2 \<noteq> 0" "c2 mod 10 \<noteq> 0" "c2 \<le> c1" by simp_all
      from c1 c2(3) have "c2 < 10 ^ (P - 1)" by simp
      then have "dec_fix (P - 1) (Fin s1 c2 e2) = Fin s1 c2 e2" using Q by (rule dec_fix_small)
      with v P c2 show ?thesis by (simp add: normalize_decimal_def strip_zeros_fixed)
    qed
  qed
qed

theorem normalize_decimal_idempotent_witness:
  "normalize_decimal 3 (Fin True 1996 (- 3)) = Inr (Fin True 2 0)
   \<and> normalize_decimal 3 (Fin True 2 0) = Inr (Fin True 2 0)"
proof -
  have a: "normalize_decimal 3 (Fin True 1996 (- 3)) = Inr (Fin True 2 0)"
    by code_simp
  from normalize_decimal_idempotent [OF a] a show ?thesis by simp
qed

section \<open>Construction of the finder\<close>

lemma and_then_Inr_iff: "and_then m f = Inr v \<longleftrightarrow> (\<exists>a. m = Inr a \<and> f a = Inr v)"
  by (cases m) (simp_all add: and_then_def)
lemma and_then_Inr [simp]: "and_then (Inr a) f = f a"
  by (simp add: and_then_def)
lemma and_then_Inl [simp]: "and_then (Inl e) f = Inl e"
  by (simp add: and_then_def)









section \<open>Equality of normalised values\<close>






lemma dec_hash_key: "dec_key a = dec_key b \<Longrightarrow> dec_key a \<noteq> None \<Longrightarrow> dec_hash H a = dec_hash H b"
  by (cases a; cases b) (auto simp: dec_key_def dec_hash_def Let_def)


lemma norm_key_None_Inl: "normalize_decimal P x = Inl e \<Longrightarrow> norm_key P x = None"
  by (simp add: norm_key_def)






section \<open>Equality is a partial equivalence\<close>













end
